theory Spec2Isabelle
  imports Main "HOL-Library.Sublist"
begin

section \<open>Python values and string operations used by the scripts\<close>

text \<open>
  The two scripts (\<^verbatim>\<open>mailer.py\<close> and \<^verbatim>\<open>mailer_sendgrid.py\<close>) are straight-line Python.
  Strings are \<^typ>\<open>string\<close>, Python lists are HOL lists, and every exception is a value of
  \<open>py_error\<close>: \<open>IndexError\<close> for a list index out of range, \<open>ValueError\<close> for a split on
  the empty separator, a failed unpacking or a negative sleep, \<open>AttributeError\<close> for a
  method call on \<^verbatim>\<open>None\<close>, and \<open>Raised msg\<close> for an exception that comes from the world
  outside the script (file system, SMTP server, HTTP API), carrying its message.
\<close>

datatype py_error = IndexError | ValueError | AttributeError | Raised string

text \<open>\<^verbatim>\<open>xs[n]\<close> for a non-negative index: the scripts index only with literals and with
  the indices produced by \<^verbatim>\<open>enumerate\<close>.\<close>

definition getitem :: "'a list \<Rightarrow> nat \<Rightarrow> py_error + 'a" where
  "getitem xs n = (if n < length xs then Inr (xs ! n) else Inl IndexError)"

definition startswith :: "string \<Rightarrow> string \<Rightarrow> bool" where
  "startswith s p = prefix p s"

definition endswith :: "string \<Rightarrow> string \<Rightarrow> bool" where
  "endswith s p = suffix p s"

text \<open>Python's \<^verbatim>\<open>needle in s\<close> on strings is \<^const>\<open>sublist\<close>: a contiguous occurrence.\<close>

text \<open>\<^verbatim>\<open>s.replace(old, new)\<close>: every occurrence of \<open>old\<close>, found from the left and
  without overlap, is replaced by \<open>new\<close>. For the empty \<open>old\<close> Python puts \<open>new\<close> before
  every character and at the end.\<close>

function replace_ne :: "string \<Rightarrow> string \<Rightarrow> string \<Rightarrow> string" where
  "replace_ne [] old new = []"
| "replace_ne (x # xs) old new =
     (if old \<noteq> [] \<and> prefix old (x # xs)
      then new @ replace_ne (drop (length old) (x # xs)) old new
      else x # replace_ne xs old new)"
  by pat_completeness auto
termination
  by (relation "measure (\<lambda>(s, old, new). length s)") auto

definition py_replace :: "string \<Rightarrow> string \<Rightarrow> string \<Rightarrow> string" where
  "py_replace s old new =
     (if old = [] then new @ concat (map (\<lambda>c. c # new) s) else replace_ne s old new)"

text \<open>\<^verbatim>\<open>s.split(sep)\<close>: the pieces between the occurrences of \<open>sep\<close>, found from the left
  and without overlap; the empty separator raises \<^verbatim>\<open>ValueError\<close>. The result always has
  at least one piece.\<close>

function split_ne :: "string \<Rightarrow> string \<Rightarrow> string list" where
  "split_ne [] sep = [[]]"
| "split_ne (x # xs) sep =
     (if sep \<noteq> [] \<and> prefix sep (x # xs)
      then [] # split_ne (drop (length sep) (x # xs)) sep
      else (case split_ne xs sep of [] \<Rightarrow> [[x]] | p # ps \<Rightarrow> (x # p) # ps))"
  by pat_completeness auto
termination
  by (relation "measure (\<lambda>(s, sep). length s)") auto

definition py_split :: "string \<Rightarrow> string \<Rightarrow> py_error + string list" where
  "py_split s sep = (if sep = [] then Inl ValueError else Inr (split_ne s sep))"

text \<open>\<^verbatim>\<open>sep.join(pieces)\<close>, used to state what \<^const>\<open>py_replace\<close> computes.\<close>

fun join :: "string \<Rightarrow> string list \<Rightarrow> string" where
  "join sep [] = []"
| "join sep [p] = p"
| "join sep (p # q # ps) = p @ sep @ join sep (q # ps)"

text \<open>\<^verbatim>\<open>s.rstrip()\<close> and \<^verbatim>\<open>s.strip()\<close> remove white space; the model takes the ASCII
  white space characters (space, tab, line feed, vertical tab, form feed, carriage return
  and the four separators 28 to 31).\<close>

definition isspace :: "char \<Rightarrow> bool" where
  "isspace c = (of_char c \<in> {9, 10, 11, 12, 13, 28, 29, 30, 31, 32 :: nat})"

definition lstrip :: "string \<Rightarrow> string" where
  "lstrip s = dropWhile isspace s"

definition rstrip :: "string \<Rightarrow> string" where
  "rstrip s = rev (dropWhile isspace (rev s))"

definition strip :: "string \<Rightarrow> string" where
  "strip s = lstrip (rstrip s)"

section \<open>Reading the template and the list\<close>

text \<open>Lines 116 to 125 of \<^verbatim>\<open>mailer.py\<close>: the first line, stripped, is the subject; the
  other lines, as they are, make the body. An empty file leaves \<^verbatim>\<open>asunto\<close> at \<^verbatim>\<open>None\<close>.\<close>

fun leer_texto :: "string option \<times> string \<Rightarrow> string list \<Rightarrow> string option \<times> string" where
  "leer_texto (asunto, cuerpo) [] = (asunto, cuerpo)"
| "leer_texto (asunto, cuerpo) (linea # f) =
     (case asunto of
        None \<Rightarrow> leer_texto (Some (strip linea), cuerpo) f
      | Some a \<Rightarrow> leer_texto (asunto, cuerpo @ linea) f)"

text \<open>A Python \<^verbatim>\<open>dict\<close> keeps the order in which its keys were first inserted; storing
  under a key that is already there changes the value and leaves the position.\<close>

fun dict_set :: "('k \<times> 'v) list \<Rightarrow> 'k \<Rightarrow> 'v \<Rightarrow> ('k \<times> 'v) list" where
  "dict_set [] k v = [(k, v)]"
| "dict_set ((k', v') # d) k v =
     (if k' = k then (k', v) # d else (k', v') # dict_set d k v)"

definition is_placeholder :: "string \<Rightarrow> bool" where
  "is_placeholder valor = (startswith valor ''||'' \<and> endswith valor ''||'')"

text \<open>Lines 136 to 138: the loop over \<^verbatim>\<open>enumerate(columnas)\<close> that fills
  \<^verbatim>\<open>placeholders\<close>.\<close>

fun scan_columnas :: "nat \<Rightarrow> string list \<Rightarrow> (string \<times> nat) list \<Rightarrow> (string \<times> nat) list" where
  "scan_columnas indice [] placeholders = placeholders"
| "scan_columnas indice (valor # columnas) placeholders =
     scan_columnas (Suc indice) columnas
       (if is_placeholder valor then dict_set placeholders valor indice else placeholders)"

definition placeholders_of :: "string list \<Rightarrow> (string \<times> nat) list" where
  "placeholders_of columnas = scan_columnas 0 columnas []"

text \<open>Lines 128 to 141: the first line gives the columns, every other line a record.
  \<^verbatim>\<open>split\<close> never returns the empty list, so \<^verbatim>\<open>len(columnas)==0\<close> holds for the first
  line only.\<close>

fun leer_lista ::
  "string \<Rightarrow> string list \<times> (string \<times> nat) list \<times> string list list \<Rightarrow> string list
   \<Rightarrow> py_error + (string list \<times> (string \<times> nat) list \<times> string list list)" where
  "leer_lista sep (columnas, placeholders, elems_lista) [] =
     Inr (columnas, placeholders, elems_lista)"
| "leer_lista sep (columnas, placeholders, elems_lista) (linea # f) =
     (case py_split (rstrip linea) sep of
        Inl e \<Rightarrow> Inl e
      | Inr campos \<Rightarrow>
          if length columnas = 0
          then leer_lista sep (campos, scan_columnas 0 campos placeholders, elems_lista) f
          else leer_lista sep (columnas, placeholders, elems_lista @ [campos]) f)"

section \<open>The merge of one record into the template\<close>

text \<open>Lines 156 to 159 of \<^verbatim>\<open>mailer.py\<close> (250 to 253 of \<^verbatim>\<open>mailer_sendgrid.py\<close>): for every
  item of \<^verbatim>\<open>placeholders\<close>, in the order of the dict, both texts are rewritten. A subject
  that is \<^verbatim>\<open>None\<close> has no \<^verbatim>\<open>replace\<close>, and \<^verbatim>\<open>i[v]\<close> raises when the record is too
  short.\<close>

fun sustituir ::
  "(string \<times> nat) list \<Rightarrow> string list \<Rightarrow> string option \<times> string
   \<Rightarrow> py_error + (string option \<times> string)" where
  "sustituir [] i (elem_asunto, elem_cuerpo) = Inr (elem_asunto, elem_cuerpo)"
| "sustituir ((k, v) # placeholders) i (elem_asunto, elem_cuerpo) =
     (case elem_asunto of
        None \<Rightarrow> Inl AttributeError
      | Some a \<Rightarrow>
          (case getitem i v of
             Inl e \<Rightarrow> Inl e
           | Inr campo \<Rightarrow>
               sustituir placeholders i
                 (Some (py_replace a k campo), py_replace elem_cuerpo k campo)))"

text \<open>The same loop on one text, when every index is in range: the reading of the merge
  that the properties below are stated with.\<close>

fun replace_all :: "(string \<times> nat) list \<Rightarrow> string list \<Rightarrow> string \<Rightarrow> string" where
  "replace_all [] i s = s"
| "replace_all ((k, v) # placeholders) i s = replace_all placeholders i (py_replace s k (i ! v))"

text \<open>When a substituted field can neither start nor end an occurrence of a token (it has
  no \<^verbatim>\<open>|\<close>) nor lie inside one, the replacement cannot build a new occurrence of that token
  around the field.\<close>

definition inert :: "string \<Rightarrow> string \<Rightarrow> bool" where
  "inert campo k = (CHR ''|'' \<notin> set campo \<and> \<not> sublist campo k)"

section \<open>The composed message\<close>

text \<open>The configuration is the JSON object of \<^verbatim>\<open>config.json\<close> with every key present
  (\<^verbatim>\<open>engine\<close> is read by \<^verbatim>\<open>mailer_sendgrid.py\<close> only).\<close>

record config =
  servidor_smtp :: string
  username :: string
  password :: string
  from_email :: string
  separador_csv :: string
  separador_subcampos :: string
  timeout :: int
  engine :: string

text \<open>A part of the message: the class of \<^verbatim>\<open>email.mime\<close> that built it, its type, its
  content, and the headers the script adds with \<^verbatim>\<open>add_header\<close> (name, value, parameters).
  The outer message keeps the headers the script assigns, in order; a header value is
  whatever was assigned, and \<^verbatim>\<open>asunto\<close> may be \<^verbatim>\<open>None\<close>.\<close>

datatype mime_class = MIMEText | MIMEImage | MIMEAudio | MIMEBase

record part =
  mime :: mime_class
  maintype :: string
  subtype :: string
  charset :: "string option"
  payload :: string
  added_headers :: "(string \<times> string \<times> (string \<times> string) list) list"

record message =
  headers :: "(string \<times> string option) list"
  parts :: "part list"

text \<open>What the scripts ask of the world outside: the file system, the MIME type table,
  the JSON loader, the regular expression engine (for the one pattern of line 219 of
  \<^verbatim>\<open>mailer_sendgrid.py\<close>, giving groups 1 and 2 of a match), the SMTP server and the
  SendGrid API. An answer \<open>Inl msg\<close> or \<open>Some msg\<close> is an exception with that message. The
  SMTP server answers per attempt (the number of the record), the API per block (the
  index of its first row).\<close>

record smtp_attempt =
  connect_exc :: "string option"
  starttls_exc :: "string option"
  login_exc :: "string option"
  sendmail_exc :: "string option"
  quit_exc :: "string option"

datatype mail_call =
    SetTo "(string \<times> nat) list"
  | SetCc "(string \<times> nat) list"
  | SetBcc "(string \<times> nat) list"
  | SetSubstitution "(string \<times> string \<times> nat) list"
  | SetFrom string string
  | SetSubject "string option"
  | SetContent string

record mundo =
  isfile :: "string \<Rightarrow> bool"
  lineas :: "string \<Rightarrow> string + string list"
  json_load :: "string \<Rightarrow> config option"
  guess_type :: "string \<Rightarrow> string option \<times> string option"
  read_text :: "string \<Rightarrow> string + string"
  read_bytes :: "string \<Rightarrow> string + string"
  re_search :: "string \<Rightarrow> (string \<times> string) option"
  smtp :: "nat \<Rightarrow> smtp_attempt"
  sendgrid_send :: "nat \<Rightarrow> mail_call list \<Rightarrow> string + string"

text \<open>Everything the run prints or does to the world, in order.\<close>

datatype evento =
    Enviando nat nat string
  | Conectar string int
  | Starttls
  | Login string string
  | Sendmail string "string list" message
  | Quit
  | ImprimirOK
  | ImprimirERROR py_error
  | Sleep int
  | Resumen nat nat
  | EnviandoBloque nat nat nat
  | ImprimirOKBloque
  | SendgridSend "mail_call list"
  | ImprimirRespuesta string
  | ImprimirERRORBloque string

definition and_then :: "py_error + 'a \<Rightarrow> ('a \<Rightarrow> py_error + 'b) \<Rightarrow> py_error + 'b" where
  "and_then r f = (case r of Inl e \<Rightarrow> Inl e | Inr x \<Rightarrow> f x)"

subsection \<open>\<^verbatim>\<open>ntpath.basename\<close>\<close>

text \<open>\<^verbatim>\<open>ntpath.basename(p)\<close> is the second component of \<^verbatim>\<open>ntpath.split(p)\<close>: the drive
  found by \<^verbatim>\<open>splitdrive\<close> is set aside and the tail is what follows the last \<^verbatim>\<open>/\<close> or
  \<^verbatim>\<open>\\<close> of the rest. \<^verbatim>\<open>splitdrive\<close> is the one of CPython 3.8, current when version 1.12
  of the script was written: a drive is a letter and a colon, or the host and share of a
  UNC path.\<close>

definition is_sep :: "char \<Rightarrow> bool" where
  "is_sep c = (c = CHR 0x5C \<or> c = CHR ''/'')"

fun find_idx :: "(char \<Rightarrow> bool) \<Rightarrow> string \<Rightarrow> nat \<Rightarrow> nat option" where
  "find_idx P [] n = None"
| "find_idx P (x # xs) n = (if P x then Some n else find_idx P xs (Suc n))"

definition find_sep :: "string \<Rightarrow> nat \<Rightarrow> nat option" where
  "find_sep p start = find_idx is_sep (drop start p) start"

definition splitdrive :: "string \<Rightarrow> string \<times> string" where
  "splitdrive p =
     (if length p \<ge> 2 then
        (if list_all is_sep (take 2 p) \<and> \<not> list_ex is_sep (take 1 (drop 2 p)) then
           (case find_sep p 2 of
              None \<Rightarrow> ([], p)
            | Some index \<Rightarrow>
                (case find_sep p (index + 1) of
                   None \<Rightarrow> (p, [])
                 | Some index2 \<Rightarrow>
                     if index2 = index + 1 then ([], p) else (take index2 p, drop index2 p)))
         else if take 1 (drop 1 p) = '':'' then (take 2 p, drop 2 p)
         else ([], p))
      else ([], p))"

definition ntpath_basename :: "string \<Rightarrow> string" where
  "ntpath_basename p = rev (takeWhile (\<lambda>c. \<not> is_sep c) (rev (snd (splitdrive p))))"

subsection \<open>Attachments\<close>

text \<open>Lines 185 to 189 of \<^verbatim>\<open>mailer.py\<close>: the inline marker.\<close>

definition marca_inline :: "string \<Rightarrow> string \<times> string" where
  "marca_inline filename =
     (if length filename > 2 \<and> take 2 filename = ''i|''
      then (drop 2 filename, ''inline'')
      else (filename, ''attachment''))"

text \<open>Lines 196 to 201: the guessed type, or the generic one, split at its first slash.
  \<^verbatim>\<open>ctype.split('/', 1)\<close> has two elements only when there is a slash; the unpacking
  raises \<^verbatim>\<open>ValueError\<close> otherwise.\<close>

definition ctype_of :: "mundo \<Rightarrow> string \<Rightarrow> string" where
  "ctype_of w filename =
     (case guess_type w filename of
        (Some ctype, None) \<Rightarrow> ctype
      | _ \<Rightarrow> ''application/octet-stream'')"

fun split_slash :: "string \<Rightarrow> py_error + (string \<times> string)" where
  "split_slash [] = Inl ValueError"
| "split_slash (x # xs) =
     (if x = CHR ''/'' then Inr ([], xs)
      else and_then (split_slash xs) (\<lambda>(a, b). Inr (x # a, b)))"

text \<open>Lines 202 to 221: the class of the part follows the main type; text is read in
  text mode, everything else in binary mode.\<close>

definition cargar_parte :: "mundo \<Rightarrow> string \<Rightarrow> py_error + part" where
  "cargar_parte w filename =
     and_then (split_slash (ctype_of w filename)) (\<lambda>(mt, st).
       case (if mt = ''text'' then read_text w filename else read_bytes w filename) of
         Inl msg \<Rightarrow> Inl (Raised msg)
       | Inr datos \<Rightarrow>
           Inr \<lparr>mime = (if mt = ''text'' then MIMEText else if mt = ''image'' then MIMEImage
                        else if mt = ''audio'' then MIMEAudio else MIMEBase),
                maintype = mt, subtype = st, charset = None, payload = datos,
                added_headers = []\<rparr>)"

text \<open>Lines 185 to 227 of \<^verbatim>\<open>mailer.py\<close>, the body of the loop over the attachment
  specifiers: \<open>Inr None\<close> is the \<^verbatim>\<open>continue\<close> of line 192.\<close>

definition adjuntar :: "mundo \<Rightarrow> string \<Rightarrow> py_error + part option" where
  "adjuntar w especificador =
     (case marca_inline especificador of (filename, disposicion) \<Rightarrow>
        if \<not> isfile w filename then Inr None
        else and_then (cargar_parte w filename) (\<lambda>msg.
          Inr (Some (msg\<lparr>added_headers :=
            (''Content-Disposition'', disposicion, [(''filename'', ntpath_basename filename)])
            # (if disposicion = ''inline''
               then [(''Content-ID'', ''<'' @ ntpath_basename filename @ ''>'', [])]
               else [])\<rparr>))))"

text \<open>Lines 277 to 312 of \<^verbatim>\<open>mailer_sendgrid.py\<close>: no marker, the specifier itself is
  the path, the file name and the content id.\<close>

definition adjuntar_sg :: "mundo \<Rightarrow> string \<Rightarrow> py_error + part option" where
  "adjuntar_sg w filename =
     (if \<not> isfile w filename then Inr None
      else and_then (cargar_parte w filename) (\<lambda>msg.
        Inr (Some (msg\<lparr>added_headers :=
          [(''Content-Disposition'', ''attachment'', [(''filename'', filename)]),
           (''Content-ID'', ''<'' @ filename @ ''>'', [])]\<rparr>))))"

fun adjuntar_todos ::
  "(string \<Rightarrow> py_error + part option) \<Rightarrow> string list \<Rightarrow> part list \<Rightarrow> py_error + part list" where
  "adjuntar_todos adj [] ps = Inr ps"
| "adjuntar_todos adj (especificador # resto) ps =
     (case adj especificador of
        Inl e \<Rightarrow> Inl e
      | Inr None \<Rightarrow> adjuntar_todos adj resto ps
      | Inr (Some msg) \<Rightarrow> adjuntar_todos adj resto (ps @ [msg]))"

subsection \<open>Composing and sending one message\<close>

text \<open>Lines 164 to 229 of \<^verbatim>\<open>mailer.py\<close>: the outer message and the list \<^verbatim>\<open>rcpt\<close> of
  envelope recipients. \<open>adj\<close> is the treatment of one attachment specifier
  (\<^const>\<open>adjuntar\<close> or \<^const>\<open>adjuntar_sg\<close>).\<close>

definition campo_opcional ::
  "config \<Rightarrow> string \<Rightarrow> string list \<Rightarrow> nat \<Rightarrow> message \<times> string list
   \<Rightarrow> py_error + (message \<times> string list)" where
  "campo_opcional cfg nombre i n = (\<lambda>(outer, rcpt).
     and_then (getitem i n) (\<lambda>campo.
       if campo \<noteq> [] then
         and_then (py_split campo (separador_subcampos cfg)) (\<lambda>dirs.
           Inr (outer\<lparr>headers := headers outer @ [(nombre, Some campo)]\<rparr>, rcpt @ dirs))
       else Inr (outer, rcpt)))"

definition componer ::
  "(string \<Rightarrow> py_error + part option) \<Rightarrow> config \<Rightarrow> string list \<Rightarrow> string option \<Rightarrow> string
   \<Rightarrow> py_error + (message \<times> string list)" where
  "componer adj cfg i elem_asunto elem_cuerpo =
     and_then (getitem i 0) (\<lambda>para.
     and_then (py_split para (separador_subcampos cfg)) (\<lambda>rcpt0.
     and_then (campo_opcional cfg ''Cc'' i 2
        (\<lparr>headers = [(''Subject'', elem_asunto), (''To'', Some para)], parts = []\<rparr>, rcpt0))
        (\<lambda>(outer1, rcpt1).
     and_then (campo_opcional cfg ''Bcc'' i 3 (outer1, rcpt1)) (\<lambda>(outer2, rcpt).
     and_then (getitem i 1) (\<lambda>adjuntos.
     and_then (py_split adjuntos (separador_subcampos cfg)) (\<lambda>especificadores.
     and_then (adjuntar_todos adj especificadores
        [\<lparr>mime = MIMEText, maintype = ''text'', subtype = ''html'', charset = Some ''UTF-8'',
          payload = elem_cuerpo, added_headers = []\<rparr>]) (\<lambda>ps.
       Inr (\<lparr>headers = headers outer2 @ [(''From'', Some (from_email cfg))], parts = ps\<rparr>,
            rcpt))))))))"

text \<open>Lines 232 to 237: the SMTP session. Every call is recorded when it is made; the
  first one that raises ends the session.\<close>

definition enviar ::
  "config \<Rightarrow> smtp_attempt \<Rightarrow> string list \<Rightarrow> message \<Rightarrow> evento list \<times> py_error option" where
  "enviar cfg srv rcpt composed =
     (let c = [Conectar (servidor_smtp cfg) (timeout cfg)];
          t = c @ [Starttls];
          l = t @ [Login (username cfg) (password cfg)];
          s = l @ [Sendmail (from_email cfg) rcpt composed];
          q = s @ [Quit]
      in case connect_exc srv of Some m \<Rightarrow> (c, Some (Raised m)) | None \<Rightarrow>
        (case starttls_exc srv of Some m \<Rightarrow> (t, Some (Raised m)) | None \<Rightarrow>
        (case login_exc srv of Some m \<Rightarrow> (l, Some (Raised m)) | None \<Rightarrow>
        (case sendmail_exc srv of Some m \<Rightarrow> (s, Some (Raised m)) | None \<Rightarrow>
        (case quit_exc srv of Some m \<Rightarrow> (q, Some (Raised m)) | None \<Rightarrow> (q, None))))))"

section \<open>The loop over the records\<close>

text \<open>The module-level variables the loop reads, and the ones it updates.\<close>

record globales =
  g_config :: config
  g_delay :: int
  g_mundo :: mundo
  g_asunto :: "string option"
  g_cuerpo :: string
  g_placeholders :: "(string \<times> nat) list"
  g_total_elems :: nat

record estado =
  elem_actual :: nat
  envios_ok :: nat
  envios_error :: nat
  salida :: "evento list"

definition imprimir :: "evento list \<Rightarrow> estado \<Rightarrow> estado" where
  "imprimir evs st = st\<lparr>salida := salida st @ evs\<rparr>"

text \<open>The \<^verbatim>\<open>try\<close> block with its \<^verbatim>\<open>except\<close> clause (lines 162 to 245): the bare
  \<^verbatim>\<open>except\<close> catches whatever the block raises.\<close>

definition intentar ::
  "(string \<Rightarrow> py_error + part option) \<Rightarrow> globales \<Rightarrow> estado \<Rightarrow> string list
   \<Rightarrow> string option \<Rightarrow> string \<Rightarrow> estado" where
  "intentar adj g st i elem_asunto elem_cuerpo =
     (case componer adj (g_config g) i elem_asunto elem_cuerpo of
        Inl e \<Rightarrow> (imprimir [ImprimirERROR e] st)\<lparr>envios_error := envios_error st + 1\<rparr>
      | Inr (outer, rcpt) \<Rightarrow>
          (case enviar (g_config g) (smtp (g_mundo g) (elem_actual st)) rcpt outer of
             (evs, Some e) \<Rightarrow>
               (imprimir (evs @ [ImprimirERROR e]) st)\<lparr>envios_error := envios_error st + 1\<rparr>
           | (evs, None) \<Rightarrow>
               (imprimir (evs @ [ImprimirOK]) st)\<lparr>envios_ok := envios_ok st + 1\<rparr>))"

text \<open>\<^verbatim>\<open>time.sleep\<close> raises \<^verbatim>\<open>ValueError\<close> on a negative length.\<close>

definition dormir :: "int \<Rightarrow> estado \<Rightarrow> estado \<times> py_error option" where
  "dormir d st = (if d < 0 then (st, Some ValueError) else (imprimir [Sleep d] st, None))"

text \<open>One iteration (lines 153 to 248). The substitutions and the progress line stand
  before the \<^verbatim>\<open>try\<close>: what they raise is caught by nothing and ends the run. The
  \<^verbatim>\<open>finally\<close> clause sleeps after the block, however it ended. The result is the state
  reached and the exception that escaped, if any.\<close>

definition paso ::
  "(string \<Rightarrow> py_error + part option) \<Rightarrow> globales \<Rightarrow> estado \<Rightarrow> string list
   \<Rightarrow> estado \<times> py_error option" where
  "paso adj g st0 i =
     (let st = st0\<lparr>elem_actual := elem_actual st0 + 1\<rparr> in
      case sustituir (g_placeholders g) i (g_asunto g, g_cuerpo g) of
        Inl e \<Rightarrow> (st, Some e)
      | Inr (elem_asunto, elem_cuerpo) \<Rightarrow>
          (case getitem i 0 of
             Inl e \<Rightarrow> (st, Some e)
           | Inr para \<Rightarrow>
               dormir (g_delay g)
                 (intentar adj g (imprimir [Enviando (elem_actual st) (g_total_elems g) para] st)
                    i elem_asunto elem_cuerpo)))"

fun bucle ::
  "(string \<Rightarrow> py_error + part option) \<Rightarrow> globales \<Rightarrow> estado \<Rightarrow> string list list
   \<Rightarrow> estado \<times> py_error option" where
  "bucle adj g st [] = (st, None)"
| "bucle adj g st (i # elems_lista) =
     (case paso adj g st i of
        (st', Some e) \<Rightarrow> (st', Some e)
      | (st', None) \<Rightarrow> bucle adj g st' elems_lista)"

section \<open>The two programs\<close>

text \<open>The options of the command line. \<^verbatim>\<open>not opts.lista\<close> holds for an option that was
  not given and for the empty string.\<close>

record opciones =
  o_lista :: "string option"
  o_texto :: "string option"
  o_delay :: int
  o_config :: string

text \<open>How the process ends: \<^verbatim>\<open>sys.exit(n)\<close>, the end of the script (status 0), or an
  exception that nothing catches, on which the interpreter prints the traceback and exits
  with status 1.\<close>

datatype fin = Exit nat | Uncaught py_error

fun exit_status :: "fin \<Rightarrow> nat" where
  "exit_status (Exit n) = n"
| "exit_status (Uncaught e) = 1"

definition estado_inicial :: estado where
  "estado_inicial = \<lparr>elem_actual = 0, envios_ok = 0, envios_error = 0, salida = []\<rparr>"

text \<open>Lines 83 to 141 of \<^verbatim>\<open>mailer.py\<close> (80 to 139 of \<^verbatim>\<open>mailer_sendgrid.py\<close>): the checks
  of the options and of the files, the configuration, the template and the list.\<close>

definition cargar :: "opciones \<Rightarrow> mundo \<Rightarrow> fin + globales \<times> string list list" where
  "cargar opts w =
     (case (o_lista opts, o_texto opts) of
        (Some lista, Some texto) \<Rightarrow>
          if lista = [] \<or> texto = [] then Inl (Exit 1)
          else if \<not> isfile w lista then Inl (Exit 1)
          else if \<not> isfile w texto then Inl (Exit 1)
          else
            (case json_load w (o_config opts) of
               None \<Rightarrow> Inl (Exit 1)
             | Some cfg \<Rightarrow>
                 (case lineas w texto of
                    Inl m \<Rightarrow> Inl (Uncaught (Raised m))
                  | Inr f_texto \<Rightarrow>
                      (case lineas w lista of
                         Inl m \<Rightarrow> Inl (Uncaught (Raised m))
                       | Inr f_lista \<Rightarrow>
                           (case leer_lista (separador_csv cfg) ([], [], []) f_lista of
                              Inl e \<Rightarrow> Inl (Uncaught e)
                            | Inr (columnas, placeholders, elems_lista) \<Rightarrow>
                                Inr (\<lparr>g_config = cfg, g_delay = o_delay opts, g_mundo = w,
                                      g_asunto = fst (leer_texto (None, []) f_texto),
                                      g_cuerpo = snd (leer_texto (None, []) f_texto),
                                      g_placeholders = placeholders,
                                      g_total_elems = length elems_lista\<rparr>,
                                     elems_lista)))))
      | _ \<Rightarrow> Inl (Exit 1))"

text \<open>\<^verbatim>\<open>mailer.py\<close>: after the loop the summary is printed, and the status is 2 when a
  send failed (lines 250 to 257).\<close>

definition main_mailer :: "opciones \<Rightarrow> mundo \<Rightarrow> fin \<times> estado" where
  "main_mailer opts w =
     (case cargar opts w of
        Inl f \<Rightarrow> (f, estado_inicial)
      | Inr (g, elems_lista) \<Rightarrow>
          (case bucle (adjuntar w) g estado_inicial elems_lista of
             (st, Some e) \<Rightarrow> (Uncaught e, st)
           | (st, None) \<Rightarrow>
               (if envios_error st > 0 then Exit 2 else Exit 0,
                imprimir [Resumen (envios_ok st) (envios_error st)] st)))"

subsection \<open>The SendGrid engine of \<^verbatim>\<open>mailer_sendgrid.py\<close>\<close>

text \<open>Lines 155 to 238. Two statements of this branch are not well-formed Python: the
  \<^verbatim>\<open>if\<close> of line 213 and the \<^verbatim>\<open>for\<close> of line 224 have only comments for a body (and the
  header of the second is garbled). They are read as statements without effect, which is
  all their text says; their conditions read \<^verbatim>\<open>dict_adjuntos\<close>, which nothing else uses.
  The message is the list of the assignments the script makes on the \<^verbatim>\<open>Mail\<close> object.\<close>

definition bloque_envios :: nat where
  "bloque_envios = 200"

definition fromkeys :: "'a list \<Rightarrow> 'a list" where
  "fromkeys xs = rev (remdups (rev xs))"

definition dict_get :: "('k \<times> 'v) list \<Rightarrow> 'k \<Rightarrow> 'v \<Rightarrow> 'v" where
  "dict_get d k x = (case map_of d k of None \<Rightarrow> x | Some v \<Rightarrow> v)"

definition filas_bloque :: "string list list \<Rightarrow> nat \<Rightarrow> string list list" where
  "filas_bloque elems_lista desde =
     map (\<lambda>i. elems_lista ! i) [desde ..< min (desde + bloque_envios) (length elems_lista)]"

fun contar_adjuntos ::
  "config \<Rightarrow> string list list \<Rightarrow> (string \<times> nat) list \<Rightarrow> py_error + (string \<times> nat) list" where
  "contar_adjuntos cfg [] dict_adjuntos = Inr dict_adjuntos"
| "contar_adjuntos cfg (fila # filas) dict_adjuntos =
     and_then (getitem fila 1) (\<lambda>adjuntos.
     and_then (py_split adjuntos (separador_subcampos cfg)) (\<lambda>adjuntos_linea.
       contar_adjuntos cfg filas
         (fold (\<lambda>j d. dict_set d j (dict_get d j 0 + 1)) (fromkeys adjuntos_linea)
            dict_adjuntos)))"

definition destinatarios ::
  "config \<Rightarrow> ((string \<times> nat) list \<Rightarrow> mail_call) \<Rightarrow> string list \<Rightarrow> nat \<Rightarrow> nat
   \<Rightarrow> py_error + mail_call list" where
  "destinatarios cfg setter fila n pers_id =
     and_then (getitem fila n) (\<lambda>campo.
       if campo \<noteq> [] then
         and_then (py_split campo (separador_subcampos cfg)) (\<lambda>dirs.
           Inr [setter (map (\<lambda>j. (j, pers_id)) dirs)])
       else Inr [])"

fun sustituciones ::
  "(string \<times> nat) list \<Rightarrow> string list \<Rightarrow> nat \<Rightarrow> py_error + (string \<times> string \<times> nat) list" where
  "sustituciones [] fila pers_id = Inr []"
| "sustituciones ((k, v) # placeholders) fila pers_id =
     and_then (getitem fila v) (\<lambda>campo.
     and_then (sustituciones placeholders fila pers_id) (\<lambda>resto.
       Inr ((k, campo, pers_id) # resto)))"

definition personalizar ::
  "config \<Rightarrow> (string \<times> nat) list \<Rightarrow> string list \<Rightarrow> nat \<Rightarrow> py_error + mail_call list" where
  "personalizar cfg placeholders fila pers_id =
     and_then (getitem fila 0) (\<lambda>para.
     and_then (py_split para (separador_subcampos cfg)) (\<lambda>dirs.
     and_then (destinatarios cfg SetCc fila 2 pers_id) (\<lambda>cc.
     and_then (destinatarios cfg SetBcc fila 3 pers_id) (\<lambda>bcc.
     and_then (if length placeholders > 0
               then and_then (sustituciones placeholders fila pers_id)
                      (\<lambda>s. Inr [SetSubstitution s])
               else Inr []) (\<lambda>sust.
     and_then (getitem fila 1) (\<lambda>adjuntos.
     and_then (py_split adjuntos (separador_subcampos cfg)) (\<lambda>adjuntos_linea.
       Inr (SetTo (map (\<lambda>j. (j, pers_id)) dirs) # cc @ bcc @ sust))))))))"

fun personalizar_todos ::
  "config \<Rightarrow> (string \<times> nat) list \<Rightarrow> string list list \<Rightarrow> nat \<Rightarrow> mail_call list
   \<Rightarrow> py_error + mail_call list" where
  "personalizar_todos cfg placeholders [] pers_id mensaje = Inr mensaje"
| "personalizar_todos cfg placeholders (fila # filas) pers_id mensaje =
     and_then (personalizar cfg placeholders fila pers_id) (\<lambda>calls.
       personalizar_todos cfg placeholders filas (pers_id + 1) (mensaje @ calls))"

text \<open>Lines 158 to 226: one block. Whatever raises here is outside the \<^verbatim>\<open>try\<close>.\<close>

definition armar_bloque :: "globales \<Rightarrow> string list list \<Rightarrow> py_error + mail_call list" where
  "armar_bloque g filas =
     and_then (contar_adjuntos (g_config g) filas []) (\<lambda>dict_adjuntos.
     and_then (personalizar_todos (g_config g) (g_placeholders g) filas 0 []) (\<lambda>mensaje.
       case re_search (g_mundo g) (from_email (g_config g)) of
         None \<Rightarrow> Inl AttributeError
       | Some (grupo1, grupo2) \<Rightarrow>
           Inr (mensaje @ [SetFrom grupo2 (strip grupo1), SetSubject (g_asunto g),
                           SetContent (g_cuerpo g)])))"

text \<open>Lines 228 to 236: the \<^verbatim>\<open>try\<close> around the call of the API; the line that says
  the block was sent is printed before the call.\<close>

definition enviar_bloque :: "globales \<Rightarrow> nat \<Rightarrow> mail_call list \<Rightarrow> evento list" where
  "enviar_bloque g desde mensaje =
     [ImprimirOKBloque, SendgridSend mensaje,
      (case sendgrid_send (g_mundo g) desde mensaje of
         Inl m \<Rightarrow> ImprimirERRORBloque m
       | Inr respuesta \<Rightarrow> ImprimirRespuesta respuesta)]"

function bucle_sendgrid ::
  "globales \<Rightarrow> string list list \<Rightarrow> estado \<Rightarrow> estado \<times> py_error option" where
  "bucle_sendgrid g elems_lista st =
     (if elem_actual st < length elems_lista then
        (let st1 = imprimir [EnviandoBloque (elem_actual st + 1)
                      (min (elem_actual st + bloque_envios) (length elems_lista))
                      (length elems_lista)] st
         in case armar_bloque g (filas_bloque elems_lista (elem_actual st)) of
              Inl e \<Rightarrow> (st1, Some e)
            | Inr mensaje \<Rightarrow>
                bucle_sendgrid g elems_lista
                  ((imprimir (enviar_bloque g (elem_actual st) mensaje) st1)
                     \<lparr>elem_actual := elem_actual st + bloque_envios\<rparr>))
      else (st, None))"
  by pat_completeness auto
termination
  by (relation "measure (\<lambda>(g, elems_lista, st). length elems_lista - elem_actual st)")
     (auto simp: imprimir_def bloque_envios_def)

text \<open>\<^verbatim>\<open>str.upper\<close> on the ASCII letters.\<close>

definition upper :: "string \<Rightarrow> string" where
  "upper s = map (\<lambda>c. if 97 \<le> (of_char c :: nat) \<and> (of_char c :: nat) \<le> 122
                       then char_of (of_char c - 32 :: nat) else c) s"

text \<open>\<^verbatim>\<open>mailer_sendgrid.py\<close>: the engine chosen by the configuration; the script ends
  after either loop (line 335 is its last).\<close>

definition main_sendgrid :: "opciones \<Rightarrow> mundo \<Rightarrow> fin \<times> estado" where
  "main_sendgrid opts w =
     (case cargar opts w of
        Inl f \<Rightarrow> (f, estado_inicial)
      | Inr (g, elems_lista) \<Rightarrow>
          if upper (engine (g_config g)) = ''SENDGRID'' then
            (case bucle_sendgrid g elems_lista estado_inicial of
               (st, Some e) \<Rightarrow> (Uncaught e, st)
             | (st, None) \<Rightarrow> (Exit 0, st))
          else if upper (engine (g_config g)) = ''SMTP'' then
            (case bucle (adjuntar_sg w) g estado_inicial elems_lista of
               (st, Some e) \<Rightarrow> (Uncaught e, st)
             | (st, None) \<Rightarrow>
                 (Exit 0, imprimir [Resumen (envios_ok st) (envios_error st)] st))
          else (Exit 0, estado_inicial))"

text \<open>The error lines of the SMTP loop, to count the sends that failed.\<close>

fun es_error :: "evento \<Rightarrow> bool" where
  "es_error (ImprimirERROR e) = True"
| "es_error ev = False"

section \<open>An example run\<close>

text \<open>A configuration, a world and a command line on which the programs are run below:
  the list has three records, the SMTP server refuses the login of the second attempt, and
  the API refuses the first block. The list \<^verbatim>\<open>corta.csv\<close> has a record with four fields
  under a header whose fifth column is a placeholder.\<close>

definition cfg_ejemplo :: config where
  "cfg_ejemplo = \<lparr>servidor_smtp = ''smtp.x.com:587'', username = ''user'', password = ''pass'',
     from_email = ''Mailer <mailer@x.com>'', separador_csv = '';'', separador_subcampos = '','',
     timeout = 10, engine = ''smtp''\<rparr>"

definition smtp_ok :: smtp_attempt where
  "smtp_ok = \<lparr>connect_exc = None, starttls_exc = None, login_exc = None, sendmail_exc = None,
     quit_exc = None\<rparr>"

definition mundo_ejemplo :: mundo where
  "mundo_ejemplo = \<lparr>
     isfile = (\<lambda>p. p \<in> set [''lista.csv'', ''corta.csv'', ''texto.txt'', ''i|'', ''logo.png'',
                               ''docs/a.txt'']),
     lineas = (\<lambda>p.
       if p = ''texto.txt'' then Inr [''Hello ||name||\<newline>'', ''Body ||name|| text\<newline>'']
       else if p = ''lista.csv'' then
         Inr [''to;attach;cc;bcc;||name||\<newline>'', ''a@x.com;;;;Ana\<newline>'',
              ''b@x.com;;;;Bea\<newline>'', ''c@x.com;;;;Carla\<newline>'']
       else if p = ''corta.csv'' then
         Inr [''to;attach;cc;bcc;||name||\<newline>'', ''a@x.com;;;\<newline>'',
              ''b@x.com;;;;Bea\<newline>'']
       else Inl ''No such file or directory''),
     json_load = (\<lambda>p. if p = ''config.json'' then Some cfg_ejemplo else None),
     guess_type = (\<lambda>p. if endswith p ''.png'' then (Some ''image/png'', None)
                         else if endswith p ''.txt'' then (Some ''text/plain'', None)
                         else (None, None)),
     read_text = (\<lambda>p. Inr ''hola''),
     read_bytes = (\<lambda>p. Inr ''datos''),
     re_search = (\<lambda>s. if s = ''Mailer <mailer@x.com>'' then Some (''Mailer '', ''mailer@x.com'')
                        else None),
     smtp = (\<lambda>n. if n = 2 then smtp_ok\<lparr>login_exc := Some ''535 Authentication failed''\<rparr>
                   else smtp_ok),
     sendgrid_send = (\<lambda>n m. if n = 0 then Inl ''HTTP Error 401: Unauthorized'' else Inr ''202'')\<rparr>"

definition opts_ejemplo :: opciones where
  "opts_ejemplo = \<lparr>o_lista = Some ''lista.csv'', o_texto = Some ''texto.txt'', o_delay = 3,
     o_config = ''config.json''\<rparr>"

definition g_ejemplo :: globales where
  "g_ejemplo = \<lparr>g_config = cfg_ejemplo, g_delay = 3, g_mundo = mundo_ejemplo,
     g_asunto = Some ''Hello ||name||'', g_cuerpo = ''Body ||name|| text'',
     g_placeholders = [(''||name||'', 4)], g_total_elems = 3\<rparr>"

section \<open>Facts about the string operations\<close>

lemma split_ne_nonempty: "split_ne s sep \<noteq> []"
  by (induction s sep rule: split_ne.induct) (auto split: list.splits)

lemma join_Cons: "ps \<noteq> [] \<Longrightarrow> join sep (p # ps) = p @ sep @ join sep ps"
  by (cases ps) auto

lemma join_Cons_hd: "join sep ((x # hd ps) # tl ps) = x # join sep ps" if "ps \<noteq> []"
proof (cases ps)
  case Nil with that show ?thesis by simp
next
  case (Cons q qs) then show ?thesis by (cases qs) auto
qed

lemma split_ne_step:
  "\<not> prefix sep (x # xs) \<Longrightarrow>
   split_ne (x # xs) sep = (x # hd (split_ne xs sep)) # tl (split_ne xs sep)"
  using split_ne_nonempty[of xs sep] by (cases "split_ne xs sep") auto

lemma prefix_drop_eq: "prefix p s \<Longrightarrow> p @ drop (length p) s = s"
  by (auto simp: prefix_def)

lemma join_split_ne: "sep \<noteq> [] \<Longrightarrow> join sep (split_ne s sep) = s"
proof (induction s sep rule: split_ne.induct)
  case (1 sep) then show ?case by simp
next
  case (2 x xs sep)
  show ?case
  proof (cases "prefix sep (x # xs)")
    case True
    with 2 have "join sep (split_ne (x # xs) sep) = sep @ drop (length sep) (x # xs)"
      by (simp add: join_Cons split_ne_nonempty)
    with True show ?thesis by (simp only: prefix_drop_eq)
  next
    case False
    with 2 show ?thesis
      by (simp add: split_ne_step join_Cons_hd[OF split_ne_nonempty] del: split_ne.simps)
  qed
qed

lemma replace_ne_join: "old \<noteq> [] \<Longrightarrow> replace_ne s old new = join new (split_ne s old)"
proof (induction s old new rule: replace_ne.induct)
  case (1 old new) then show ?case by simp
next
  case (2 x xs old new)
  show ?case
  proof (cases "prefix old (x # xs)")
    case True
    with 2 show ?thesis by (simp add: join_Cons split_ne_nonempty)
  next
    case False
    with 2 show ?thesis
      by (simp add: split_ne_step join_Cons_hd[OF split_ne_nonempty] del: split_ne.simps)
  qed
qed

lemma hd_split_ne_prefix: "prefix (hd (split_ne s sep)) s"
  by (induction s sep rule: split_ne.induct) (auto split: list.splits)

lemma split_ne_pieces: "sep \<noteq> [] \<Longrightarrow> p \<in> set (split_ne s sep) \<Longrightarrow> \<not> sublist sep p"
proof (induction s sep arbitrary: p rule: split_ne.induct)
  case (1 sep) then show ?case by simp
next
  case (2 x xs sep)
  show ?case
  proof (cases "prefix sep (x # xs)")
    case True
    with 2 show ?thesis by auto
  next
    case False
    have nohd: "\<not> sublist sep (x # hd (split_ne xs sep))"
    proof
      assume "sublist sep (x # hd (split_ne xs sep))"
      then have "prefix sep (x # hd (split_ne xs sep)) \<or> sublist sep (hd (split_ne xs sep))"
        by (simp add: sublist_Cons_right)
      moreover have "hd (split_ne xs sep) \<in> set (split_ne xs sep)"
        by (simp add: split_ne_nonempty)
      ultimately have "prefix sep (x # hd (split_ne xs sep))"
        using 2 False by auto
      moreover have "prefix (x # hd (split_ne xs sep)) (x # xs)"
        by (simp add: hd_split_ne_prefix)
      ultimately show False using False by (meson prefix_order.trans)
    qed
    from "2.prems" False have "p = x # hd (split_ne xs sep) \<or> p \<in> set (tl (split_ne xs sep))"
      by (simp add: split_ne_step del: split_ne.simps)
    then show ?thesis
    proof
      assume "p = x # hd (split_ne xs sep)" with nohd show ?thesis by simp
    next
      assume "p \<in> set (tl (split_ne xs sep))"
      then have "p \<in> set (split_ne xs sep)" by (meson list.set_sel(2) split_ne_nonempty)
      with 2 False show ?thesis by auto
    qed
  qed
qed

lemma replace_ne_absent: "\<not> sublist old s \<Longrightarrow> replace_ne s old new = s"
proof (induction s old new rule: replace_ne.induct)
  case (1 old new) then show ?case by simp
next
  case (2 x xs old new)
  then have "\<not> prefix old (x # xs)" "\<not> sublist old xs"
    by (auto simp: sublist_Cons_right)
  with 2 show ?case by simp
qed

lemma replace_ne_self: "old \<noteq> [] \<Longrightarrow> replace_ne old old new = new"
  by (cases old) auto

lemma replace_ne_sublist: "old \<noteq> [] \<Longrightarrow> sublist old s \<Longrightarrow> sublist new (replace_ne s old new)"
proof (induction s old new rule: replace_ne.induct)
  case (1 old new) then show ?case by simp
next
  case (2 x xs old new)
  show ?case
  proof (cases "prefix old (x # xs)")
    case True
    with 2 show ?thesis by simp
  next
    case False
    with 2 have "sublist old xs" by (simp add: sublist_Cons_right)
    with 2 False have "sublist new (replace_ne xs old new)" by simp
    with False show ?thesis by (simp add: sublist_Cons_right)
  qed
qed

section \<open>Facts about the placeholder map and the merge\<close>

lemma map_fst_dict_set:
  "map fst (dict_set d k v) = (if k \<in> fst ` set d then map fst d else map fst d @ [k])"
  by (induction d k v rule: dict_set.induct) (auto simp: image_iff)

lemma set_dict_set:
  "set (dict_set d k v) = {(k', v') \<in> set d. k' \<noteq> k} \<union> {(k, v)}" if "distinct (map fst d)"
  using that by (induction d k v rule: dict_set.induct) (auto simp: image_iff rev_image_eqI)

lemma distinct_dict_set: "distinct (map fst d) \<Longrightarrow> distinct (map fst (dict_set d k v))"
  by (simp add: map_fst_dict_set)

lemma scan_columnas_snoc:
  "scan_columnas n (cs @ [c]) ph =
     (if is_placeholder c then dict_set (scan_columnas n cs ph) c (n + length cs)
      else scan_columnas n cs ph)"
  by (induction cs arbitrary: n ph) auto

lemma first_occurrences_snoc:
  "rev (remdups (rev (xs @ [x]))) =
     (if x \<in> set xs then rev (remdups (rev xs)) else rev (remdups (rev xs)) @ [x])"
  by simp

lemma map_fst_scan_columnas:
  "map fst (scan_columnas n cs []) = rev (remdups (rev (filter is_placeholder cs)))"
proof (induction cs rule: rev_induct)
  case Nil then show ?case by simp
next
  case (snoc c cs)
  have "set (map fst (scan_columnas n cs [])) = set (filter is_placeholder cs)"
    by (simp only: snoc set_rev set_remdups)
  then have mem: "c \<in> fst ` set (scan_columnas n cs []) \<longleftrightarrow> c \<in> set cs \<and> is_placeholder c"
    by auto
  show ?case
    by (simp add: scan_columnas_snoc map_fst_dict_set mem snoc)
qed

lemma distinct_scan_columnas: "distinct (map fst (scan_columnas n cs []))"
  by (simp add: map_fst_scan_columnas)

lemma scan_columnas_entries:
  "(k, v) \<in> set (scan_columnas n cs []) \<Longrightarrow> n \<le> v \<and> v < n + length cs \<and> cs ! (v - n) = k \<and> is_placeholder k"
proof (induction cs arbitrary: k v rule: rev_induct)
  case Nil then show ?case by simp
next
  case (snoc c cs)
  show ?case
  proof (cases "is_placeholder c")
    case False
    with snoc.prems have "(k, v) \<in> set (scan_columnas n cs [])"
      by (simp add: scan_columnas_snoc)
    from snoc.IH[OF this] show ?thesis by (auto simp: nth_append)
  next
    case True
    with snoc.prems have "(k, v) \<in> set (scan_columnas n cs []) \<or> (k, v) = (c, n + length cs)"
      by (auto simp: scan_columnas_snoc set_dict_set[OF distinct_scan_columnas])
    then show ?thesis
    proof
      assume "(k, v) \<in> set (scan_columnas n cs [])"
      from snoc.IH[OF this] show ?thesis by (auto simp: nth_append)
    next
      assume "(k, v) = (c, n + length cs)"
      with True show ?thesis by simp
    qed
  qed
qed

lemma placeholders_of_entries:
  "(k, v) \<in> set (placeholders_of columnas) \<Longrightarrow> v < length columnas \<and> columnas ! v = k \<and> is_placeholder k"
  using scan_columnas_entries[of k v 0 columnas] by (simp add: placeholders_of_def)

lemma is_placeholder_nonempty: "is_placeholder k \<Longrightarrow> k \<noteq> []"
  by (auto simp: is_placeholder_def startswith_def)

lemma is_placeholder_ends: "is_placeholder k \<Longrightarrow> hd k = CHR ''|'' \<and> last k = CHR ''|''"
proof -
  assume k: "is_placeholder k"
  then have "prefix ''||'' k" "suffix ''||'' k"
    by (simp_all add: is_placeholder_def startswith_def endswith_def)
  then obtain a b where a: "k = ''||'' @ a" and b: "k = b @ ''||''"
    unfolding prefix_def suffix_def by blast
  from a have "hd k = CHR ''|''" by simp
  moreover from b have "last k = CHR ''|''" by simp
  ultimately show ?thesis by simp
qed

lemma replace_all_append:
  "replace_all (ps1 @ ps2) i s = replace_all ps2 i (replace_all ps1 i s)"
  by (induction ps1 arbitrary: s) auto

lemma sustituir_in_range:
  "\<forall>(k, v) \<in> set P. v < length i \<Longrightarrow>
   sustituir P i (Some a, c) = Inr (Some (replace_all P i a), replace_all P i c)"
  by (induction P arbitrary: a c) (auto simp: getitem_def)

lemma sustituir_out_of_range:
  "\<exists>(k, v) \<in> set P. length i \<le> v \<Longrightarrow> sustituir P i (Some a, c) = Inl IndexError"
proof (induction P arbitrary: a c)
  case Nil then show ?case by simp
next
  case (Cons p P)
  obtain k v where p: "p = (k, v)" by (cases p)
  show ?case
  proof (cases "v < length i")
    case False
    with p show ?thesis by (simp add: getitem_def)
  next
    case True
    with Cons.prems p have "\<exists>(k, v) \<in> set P. length i \<le> v" by auto
    from Cons.IH[OF this] True p show ?thesis by (simp add: getitem_def)
  qed
qed

lemma sublist_skip_left:
  "k \<noteq> [] \<Longrightarrow> hd k \<notin> set v \<Longrightarrow> sublist k (v @ b) \<Longrightarrow> sublist k b"
proof (induction v)
  case Nil then show ?case by simp
next
  case (Cons x v)
  from Cons.prems have "\<not> prefix k (x # v @ b)"
    by (cases k) auto
  with Cons.prems have "sublist k (v @ b)" by (simp add: sublist_Cons_right)
  with Cons show ?case by simp
qed

lemma sublist_straddle:
  assumes k: "k \<noteq> []" and h: "hd k \<notin> set v" and l: "last k \<notin> set v"
    and nv: "\<not> sublist v k" and s: "sublist k (a @ v @ b)"
  shows "sublist k a \<or> sublist k b"
proof -
  from s consider "sublist k a" | "sublist k (v @ b)"
    | k1 k2 where "k = k1 @ k2" "suffix k1 a" "prefix k2 (v @ b)"
    by (auto simp: sublist_append)
  then show ?thesis
  proof cases
    case 1 then show ?thesis by simp
  next
    case 2 with k h show ?thesis by (auto dest: sublist_skip_left)
  next
    case 3
    show ?thesis
    proof (cases "k2 = []")
      case True with 3 show ?thesis by auto
    next
      case False
      from 3(3) consider "prefix k2 v" | k3 where "k2 = v @ k3"
        by (auto simp: prefix_append)
      then show ?thesis
      proof cases
        case 1
        with False 3(1) have "last k \<in> set v"
          by (metis last_appendR last_in_set set_mono_prefix subsetD)
        with l show ?thesis by simp
      next
        case 2
        with 3(1) have "sublist v k" by (metis sublist_appendI)
        with nv show ?thesis by simp
      qed
    qed
  qed
qed

lemma sublist_join:
  assumes "k \<noteq> []" "hd k \<notin> set v" "last k \<notin> set v" "\<not> sublist v k"
  shows "sublist k (join v ps) \<Longrightarrow> \<exists>p \<in> set ps. sublist k p"
proof (induction ps)
  case Nil with assms show ?case by simp
next
  case (Cons p ps)
  show ?case
  proof (cases "ps = []")
    case True with Cons.prems show ?thesis by simp
  next
    case False
    with Cons.prems have "sublist k (p @ v @ join v ps)" by (simp add: join_Cons)
    with assms have "sublist k p \<or> sublist k (join v ps)" by (rule sublist_straddle)
    with Cons.IH show ?thesis by auto
  qed
qed

lemma sublist_join_piece: "p \<in> set ps \<Longrightarrow> sublist p (join sep ps)"
proof (induction sep ps rule: join.induct)
  case (3 sep q r ps)
  then show ?case
    by (metis join.simps(3) set_ConsD sublist_appendI sublist_append_rightI sublist_order.order_trans append.assoc sublist_append_leftI)
qed auto

lemma split_ne_piece_sublist:
  "sep \<noteq> [] \<Longrightarrow> p \<in> set (split_ne s sep) \<Longrightarrow> sublist p s"
  using sublist_join_piece[of p "split_ne s sep" sep] by (simp add: join_split_ne)

lemma py_replace_removes:
  assumes "is_placeholder k" "inert campo k"
  shows "\<not> sublist k (py_replace s k campo)"
proof
  assume a: "sublist k (py_replace s k campo)"
  from assms have k: "k \<noteq> []" "hd k \<notin> set campo" "last k \<notin> set campo" "\<not> sublist campo k"
    by (auto simp: inert_def is_placeholder_nonempty is_placeholder_ends)
  from a k(1) have "sublist k (join campo (split_ne s k))"
    by (simp add: py_replace_def replace_ne_join)
  from sublist_join[OF k this] obtain p where "p \<in> set (split_ne s k)" "sublist k p" by blast
  with k(1) show False by (auto dest: split_ne_pieces)
qed

lemma py_replace_keeps_absent:
  assumes "is_placeholder k" "inert campo k" "k' \<noteq> []" "\<not> sublist k s"
  shows "\<not> sublist k (py_replace s k' campo)"
proof
  assume a: "sublist k (py_replace s k' campo)"
  from assms have k: "k \<noteq> []" "hd k \<notin> set campo" "last k \<notin> set campo" "\<not> sublist campo k"
    by (auto simp: inert_def is_placeholder_nonempty is_placeholder_ends)
  from a assms(3) have "sublist k (join campo (split_ne s k'))"
    by (simp add: py_replace_def replace_ne_join)
  from sublist_join[OF k this] obtain p where "p \<in> set (split_ne s k')" "sublist k p" by blast
  with assms(3) have "sublist k s"
    by (meson split_ne_piece_sublist sublist_order.order_trans)
  with assms(4) show False by simp
qed

lemma replace_all_keeps_absent:
  assumes "is_placeholder k" "\<forall>(k', v') \<in> set P. k' \<noteq> [] \<and> inert (i ! v') k"
  shows "\<not> sublist k s \<Longrightarrow> \<not> sublist k (replace_all P i s)"
  using assms(2)
proof (induction P arbitrary: s)
  case Nil then show ?case by simp
next
  case (Cons p P)
  obtain k' v' where p: "p = (k', v')" by (cases p)
  with Cons.prems have "\<not> sublist k (py_replace s k' (i ! v'))"
    using py_replace_keeps_absent[OF assms(1), of "i ! v'" k' s] by simp
  with Cons p show ?case by simp
qed

lemma replace_all_removes:
  assumes "\<forall>(k, v) \<in> set P. is_placeholder k"
    and "\<forall>(k, v) \<in> set P. \<forall>(k', v') \<in> set P. inert (i ! v') k"
    and "(k, v) \<in> set P"
  shows "\<not> sublist k (replace_all P i s)"
proof -
  from assms(3) obtain P1 P2 where P: "P = P1 @ (k, v) # P2" by (meson split_list)
  have k: "is_placeholder k" using assms(1,3) by auto
  have "inert (i ! v) k" using assms(2,3) by fastforce
  with k have "\<not> sublist k (py_replace (replace_all P1 i s) k (i ! v))"
    by (rule py_replace_removes)
  moreover have "\<forall>(k', v') \<in> set P2. k' \<noteq> [] \<and> inert (i ! v') k"
  proof (clarify, rule conjI)
    fix k' v' assume m: "(k', v') \<in> set P2"
    then have m': "(k', v') \<in> set P" by (simp add: P)
    with assms(1) have "is_placeholder k'" by fastforce
    then show "k' \<noteq> []" by (rule is_placeholder_nonempty)
    from assms(2,3) m' show "inert (i ! v') k" by fastforce
  qed
  ultimately show ?thesis
    using replace_all_keeps_absent[OF k, of P2 i] by (simp add: P replace_all_append)
qed

lemma py_replace_absent: "\<not> sublist old s \<Longrightarrow> py_replace s old new = s"
  by (cases "old = []") (auto simp: py_replace_def replace_ne_absent)

lemma py_replace_self: "old \<noteq> [] \<Longrightarrow> py_replace old old new = new"
  by (simp add: py_replace_def replace_ne_self)

lemma replace_all_absent:
  "\<forall>(k, v) \<in> set ps. \<not> sublist k s \<Longrightarrow> replace_all ps i s = s"
  by (induction ps) (auto simp: py_replace_absent)

lemma py_replace_pieces:
  assumes "k \<noteq> []"
  shows "py_replace s k campo = join campo (split_ne s k) \<and> join k (split_ne s k) = s
         \<and> (\<forall>p \<in> set (split_ne s k). \<not> sublist k p)"
  using assms by (auto simp: py_replace_def replace_ne_join join_split_ne dest: split_ne_pieces)

section \<open>The claims\<close>

subsection \<open>C1: what the merge leaves of the tokens\<close>

text \<open>
  C1 (as amended). For every subject and body and every placeholder map built from a
  header row, merging a record whose length exceeds every mapped column index succeeds,
  and its result is the template rewritten token by token in the order of the map. Each
  step is a literal replacement of all occurrences: the text is cut at the occurrences of
  the token, found from the left without overlap, no piece between them contains the
  token, and the pieces are joined again with the field of the record at the mapped
  index. No occurrence of any token remains in the merged subject and body when no
  substituted field contains the character \<^verbatim>\<open>|\<close> or is a part of a token (an empty field is a
  part of every token).
\<close>

theorem merge_replaces_every_token:
  assumes "\<forall>(k, v) \<in> set (placeholders_of columnas). v < length i"
  shows "sustituir (placeholders_of columnas) i (Some asunto, cuerpo) =
           Inr (Some (replace_all (placeholders_of columnas) i asunto),
                replace_all (placeholders_of columnas) i cuerpo)
         \<and> (\<forall>(k, v) \<in> set (placeholders_of columnas). \<forall>s.
               py_replace s k (i ! v) = join (i ! v) (split_ne s k)
               \<and> join k (split_ne s k) = s
               \<and> (\<forall>p \<in> set (split_ne s k). \<not> sublist k p))
         \<and> ((\<forall>(k, v) \<in> set (placeholders_of columnas).
                \<forall>(k', v') \<in> set (placeholders_of columnas). inert (i ! v') k)
              \<longrightarrow> (\<forall>(k, v) \<in> set (placeholders_of columnas).
                     \<not> sublist k (replace_all (placeholders_of columnas) i asunto)
                     \<and> \<not> sublist k (replace_all (placeholders_of columnas) i cuerpo)))"
proof (intro conjI)
  show "sustituir (placeholders_of columnas) i (Some asunto, cuerpo) =
           Inr (Some (replace_all (placeholders_of columnas) i asunto),
                replace_all (placeholders_of columnas) i cuerpo)"
    using assms by (rule sustituir_in_range)
next
  show "\<forall>(k, v) \<in> set (placeholders_of columnas). \<forall>s.
               py_replace s k (i ! v) = join (i ! v) (split_ne s k)
               \<and> join k (split_ne s k) = s
               \<and> (\<forall>p \<in> set (split_ne s k). \<not> sublist k p)"
  proof (clarify)
    fix k v s assume "(k, v) \<in> set (placeholders_of columnas)"
    then have "k \<noteq> []" by (auto dest: placeholders_of_entries is_placeholder_nonempty)
    then show "py_replace s k (i ! v) = join (i ! v) (split_ne s k)
               \<and> join k (split_ne s k) = s
               \<and> (\<forall>p \<in> set (split_ne s k). \<not> sublist k p)"
      by (rule py_replace_pieces)
  qed
next
  have ph: "\<forall>(k, v) \<in> set (placeholders_of columnas). is_placeholder k"
    by (auto dest: placeholders_of_entries)
  show "(\<forall>(k, v) \<in> set (placeholders_of columnas).
                \<forall>(k', v') \<in> set (placeholders_of columnas). inert (i ! v') k)
              \<longrightarrow> (\<forall>(k, v) \<in> set (placeholders_of columnas).
                     \<not> sublist k (replace_all (placeholders_of columnas) i asunto)
                     \<and> \<not> sublist k (replace_all (placeholders_of columnas) i cuerpo))"
    using replace_all_removes[OF ph] by blast
qed

text \<open>The example of the specification: header \<^verbatim>\<open>to, attach, cc, bcc, ||name||\<close>.\<close>

lemma ph_name: "placeholders_of [''to'', ''attach'', ''cc'', ''bcc'', ''||name||''] = [(''||name||'', 4)]"
  by (simp add: placeholders_of_def is_placeholder_def startswith_def endswith_def suffix_to_prefix)

lemma ph_a_b:
  "placeholders_of [''to'', ''attach'', ''cc'', ''bcc'', ''||a||'', ''||b||''] =
     [(''||a||'', 4), (''||b||'', 5)]"
  by (simp add: placeholders_of_def is_placeholder_def startswith_def endswith_def suffix_to_prefix)

theorem merge_replaces_every_token_witness:
  "sustituir (placeholders_of [''to'', ''attach'', ''cc'', ''bcc'', ''||name||''])
      [''u@x.com'', '''', '''', '''', ''Ana''] (Some ''Hello ||name||'', ''Body ||name|| text'')
     = Inr (Some ''Hello Ana'', ''Body Ana text'')
   \<and> \<not> sublist ''||name||'' ''Hello Ana'' \<and> \<not> sublist ''||name||'' ''Body Ana text''"
proof -
  let ?P = "placeholders_of [''to'', ''attach'', ''cc'', ''bcc'', ''||name||'']"
  let ?i = "[''u@x.com'', '''', '''', '''', ''Ana'']"
  have h: "\<forall>(k, v) \<in> set ?P. v < length ?i" by (simp add: ph_name)
  have "\<not> sublist ''Ana'' ''||name||''" by (simp add: sublist_Cons_right)
  then have inert: "\<forall>(k, v) \<in> set ?P. \<forall>(k', v') \<in> set ?P. inert (?i ! v') k"
    by (simp add: ph_name inert_def)
  have a: "replace_all ?P ?i ''Hello ||name||'' = ''Hello Ana''"
    by (simp add: ph_name py_replace_def)
  have c: "replace_all ?P ?i ''Body ||name|| text'' = ''Body Ana text''"
    by (simp add: ph_name py_replace_def)
  from merge_replaces_every_token[OF h, of "''Hello ||name||''" "''Body ||name|| text''"] inert
  show ?thesis unfolding a c by (simp add: ph_name)
qed

text \<open>
  C1 as stated fails: a field may itself hold the text of a token that was processed
  before. With the columns \<^verbatim>\<open>||a||\<close> and \<^verbatim>\<open>||b||\<close> and a record whose field for
  \<^verbatim>\<open>||b||\<close> is the text \<^verbatim>\<open>||a||\<close>, the merged subject and body still contain the token
  \<^verbatim>\<open>||a||\<close>.
\<close>

theorem merge_leaves_token_counterexample:
  "placeholders_of [''to'', ''attach'', ''cc'', ''bcc'', ''||a||'', ''||b||'']
     = [(''||a||'', 4), (''||b||'', 5)]
   \<and> length [''u@x.com'', '''', '''', '''', ''A'', ''||a||''] = 6
   \<and> sustituir (placeholders_of [''to'', ''attach'', ''cc'', ''bcc'', ''||a||'', ''||b||''])
        [''u@x.com'', '''', '''', '''', ''A'', ''||a||''] (Some ''Hi ||b||'', ''||b||'')
       = Inr (Some ''Hi ||a||'', ''||a||'')
   \<and> sublist ''||a||'' ''Hi ||a||'' \<and> sublist ''||a||'' ''||a||''"
  by (simp add: ph_a_b getitem_def py_replace_def sublist_Cons_right)

subsection \<open>C9: the substitutions are sequential\<close>

lemma map_fst_placeholders_of:
  "map fst (placeholders_of columnas) = rev (remdups (rev (filter is_placeholder columnas)))"
  by (simp add: placeholders_of_def map_fst_scan_columnas)



subsection \<open>C10: when the inline marker is recognised\<close>

lemma marca_inline_inline:
  "snd (marca_inline e) = ''inline'' \<longleftrightarrow> (\<exists>resto. resto \<noteq> [] \<and> e = ''i|'' @ resto)"
proof
  assume "snd (marca_inline e) = ''inline''"
  then have l: "length e > 2" and t: "take 2 e = ''i|''"
    by (auto simp: marca_inline_def split: if_splits)
  from l have "drop 2 e \<noteq> []" by simp
  moreover from t have "e = ''i|'' @ drop 2 e" by (metis append_take_drop_id)
  ultimately show "\<exists>resto. resto \<noteq> [] \<and> e = ''i|'' @ resto" by blast
next
  assume "\<exists>resto. resto \<noteq> [] \<and> e = ''i|'' @ resto"
  then show "snd (marca_inline e) = ''inline''" by (auto simp: marca_inline_def)
qed

text \<open>
  C10. A specifier is taken as inline exactly when it is \<^verbatim>\<open>i|\<close> followed by at least one
  more character, and the path is then what follows the marker. A specifier of at most two
  characters, \<^verbatim>\<open>i|\<close> itself included, is a regular attachment whose path is the specifier:
  it is skipped when no such file exists, and otherwise attached with the disposition
  \<^verbatim>\<open>attachment\<close> and no content id.
\<close>

theorem inline_marker_needs_a_path:
  "(snd (marca_inline e) = ''inline'' \<longleftrightarrow> (\<exists>resto. resto \<noteq> [] \<and> e = ''i|'' @ resto))
   \<and> (snd (marca_inline e) = ''inline'' \<longrightarrow> fst (marca_inline e) = drop 2 e)
   \<and> (snd (marca_inline e) \<noteq> ''inline'' \<longrightarrow> marca_inline e = (e, ''attachment''))
   \<and> (length e \<le> 2 \<longrightarrow>
        marca_inline e = (e, ''attachment'')
        \<and> adjuntar w e =
            (if \<not> isfile w e then Inr None
             else and_then (cargar_parte w e) (\<lambda>msg. Inr (Some (msg\<lparr>added_headers :=
                    [(''Content-Disposition'', ''attachment'',
                      [(''filename'', ntpath_basename e)])]\<rparr>)))))"
  by (intro conjI impI, rule marca_inline_inline)
     (auto simp: marca_inline_def adjuntar_def split: if_splits)

lemma cargar_i_pipe:
  "cargar_parte mundo_ejemplo ''i|'' =
     Inr \<lparr>mime = MIMEBase, maintype = ''application'', subtype = ''octet-stream'',
          charset = None, payload = ''datos'', added_headers = []\<rparr>"
  by (simp add: cargar_parte_def ctype_of_def mundo_ejemplo_def endswith_def suffix_to_prefix
      and_then_def)

lemma basename_i_pipe: "ntpath_basename ''i|'' = ''i|''"
  by (simp add: ntpath_basename_def splitdrive_def is_sep_def)

theorem inline_marker_needs_a_path_witness:
  "marca_inline ''i|'' = (''i|'', ''attachment'')
   \<and> adjuntar mundo_ejemplo ''i|'' =
       Inr (Some \<lparr>mime = MIMEBase, maintype = ''application'', subtype = ''octet-stream'',
          charset = None, payload = ''datos'',
          added_headers = [(''Content-Disposition'', ''attachment'', [(''filename'', ''i|'')])]\<rparr>)
   \<and> marca_inline ''i|logo.png'' = (''logo.png'', ''inline'')"
proof -
  have f: "isfile mundo_ejemplo ''i|''" by (simp add: mundo_ejemplo_def)
  have l: "length ''i|'' \<le> 2" by simp
  note T = inline_marker_needs_a_path[of "''i|''" mundo_ejemplo]
  from T l have a: "marca_inline ''i|'' = (''i|'', ''attachment'')" by blast
  from T l have "adjuntar mundo_ejemplo ''i|'' =
            (if \<not> isfile mundo_ejemplo ''i|'' then Inr None
             else and_then (cargar_parte mundo_ejemplo ''i|'') (\<lambda>msg. Inr (Some (msg\<lparr>added_headers :=
                    [(''Content-Disposition'', ''attachment'',
                      [(''filename'', ntpath_basename ''i|'')])]\<rparr>))))" by blast
  then have b: "adjuntar mundo_ejemplo ''i|'' =
       Inr (Some \<lparr>mime = MIMEBase, maintype = ''application'', subtype = ''octet-stream'',
          charset = None, payload = ''datos'',
          added_headers = [(''Content-Disposition'', ''attachment'', [(''filename'', ''i|'')])]\<rparr>)"
    by (simp add: f cargar_i_pipe basename_i_pipe and_then_def)
  note T2 = inline_marker_needs_a_path[of "''i|logo.png''" mundo_ejemplo]
  have "\<exists>resto. resto \<noteq> [] \<and> ''i|logo.png'' = ''i|'' @ resto" by simp
  with T2 have i: "snd (marca_inline ''i|logo.png'') = ''inline''" by blast
  with T2 have "fst (marca_inline ''i|logo.png'') = drop 2 ''i|logo.png''" by blast
  with i have c: "marca_inline ''i|logo.png'' = (''logo.png'', ''inline'')"
    by (simp add: prod_eq_iff)
  from a b c show ?thesis by simp
qed

subsection \<open>C7: specifiers that name no file\<close>

lemma adjuntar_missing: "\<not> isfile w (fst (marca_inline e)) \<Longrightarrow> adjuntar w e = Inr None"
  by (cases "marca_inline e") (simp add: adjuntar_def)

lemma adjuntar_sg_missing: "\<not> isfile w e \<Longrightarrow> adjuntar_sg w e = Inr None"
  by (simp add: adjuntar_sg_def)

lemma adjuntar_todos_filter:
  "\<forall>e. \<not> ok e \<longrightarrow> adj e = Inr None \<Longrightarrow>
   adjuntar_todos adj es ps = adjuntar_todos adj (filter ok es) ps"
  by (induction es arbitrary: ps) (auto split: sum.splits option.splits)

lemma and_then_Inl: "and_then (Inl e) f = Inl e"
  by (simp add: and_then_def)

lemma and_then_Inr: "and_then (Inr x) f = f x"
  by (simp add: and_then_def)


lemma logo_part:
  "adjuntar mundo_ejemplo ''i|logo.png'' =
     Inr (Some \<lparr>mime = MIMEImage, maintype = ''image'', subtype = ''png'', charset = None,
       payload = ''datos'',
       added_headers = [(''Content-Disposition'', ''inline'', [(''filename'', ''logo.png'')]),
                        (''Content-ID'', ''<logo.png>'', [])]\<rparr>)"
  by (simp add: adjuntar_def marca_inline_def cargar_parte_def ctype_of_def mundo_ejemplo_def
      endswith_def suffix_to_prefix and_then_def ntpath_basename_def splitdrive_def is_sep_def)


subsection \<open>C6: the headers of an attachment\<close>

lemma splitdrive_append: "fst (splitdrive p) @ snd (splitdrive p) = p"
  by (auto simp: splitdrive_def split: option.splits)

lemma ntpath_basename_no_sep: "c \<in> set (ntpath_basename p) \<Longrightarrow> \<not> is_sep c"
  unfolding ntpath_basename_def by (auto dest: set_takeWhileD)

lemma suffix_rev_takeWhile: "suffix (rev (takeWhile P (rev xs))) xs"
proof -
  have "prefix (takeWhile P (rev xs)) (rev xs)" by (rule takeWhile_is_prefix)
  then show ?thesis by (simp add: suffix_to_prefix)
qed

lemma ntpath_basename_suffix: "suffix (ntpath_basename p) p"
proof -
  have "suffix (ntpath_basename p) (snd (splitdrive p))"
    unfolding ntpath_basename_def by (rule suffix_rev_takeWhile)
  moreover have "suffix (snd (splitdrive p)) p"
    by (metis splitdrive_append suffixI)
  ultimately show ?thesis by (rule suffix_order.trans)
qed

lemma ntpath_basename_terminal:
  assumes "fst (splitdrive p) = []" "\<forall>c \<in> set nombre. \<not> is_sep c" "is_sep s"
    and "p = dir @ s # nombre"
  shows "ntpath_basename p = nombre"
proof -
  from assms(1) splitdrive_append[of p] have "snd (splitdrive p) = p" by simp
  then have "ntpath_basename p = rev (takeWhile (\<lambda>c. \<not> is_sep c) (rev nombre @ s # rev dir))"
    by (simp add: ntpath_basename_def assms(4))
  also have "\<dots> = rev (rev nombre)"
    using assms(2,3) by (subst takeWhile_append2) auto
  finally show ?thesis by simp
qed

lemma adjuntar_headers:
  assumes "adjuntar w e = Inr (Some msg)"
  shows "added_headers msg =
     (if length e > 2 \<and> take 2 e = ''i|''
      then [(''Content-Disposition'', ''inline'', [(''filename'', ntpath_basename (drop 2 e))]),
            (''Content-ID'', ''<'' @ ntpath_basename (drop 2 e) @ ''>'', [])]
      else [(''Content-Disposition'', ''attachment'', [(''filename'', ntpath_basename e)])])"
  using assms
  by (auto simp: adjuntar_def marca_inline_def and_then_def split: if_splits sum.splits)

lemma adjuntar_sg_headers:
  assumes "adjuntar_sg w e = Inr (Some msg)"
  shows "added_headers msg =
     [(''Content-Disposition'', ''attachment'', [(''filename'', e)]),
      (''Content-ID'', ''<'' @ e @ ''>'', [])]"
  using assms
  by (auto simp: adjuntar_sg_def and_then_def split: if_splits sum.splits)


lemma a_txt_part:
  "adjuntar mundo_ejemplo ''docs/a.txt'' =
     Inr (Some \<lparr>mime = MIMEText, maintype = ''text'', subtype = ''plain'', charset = None,
       payload = ''hola'',
       added_headers = [(''Content-Disposition'', ''attachment'', [(''filename'', ''a.txt'')])]\<rparr>)"
  by (simp add: adjuntar_def marca_inline_def cargar_parte_def ctype_of_def mundo_ejemplo_def
      endswith_def suffix_to_prefix and_then_def ntpath_basename_def splitdrive_def is_sep_def)

lemma a_txt_part_sg:
  "adjuntar_sg mundo_ejemplo ''docs/a.txt'' =
     Inr (Some \<lparr>mime = MIMEText, maintype = ''text'', subtype = ''plain'', charset = None,
       payload = ''hola'',
       added_headers = [(''Content-Disposition'', ''attachment'', [(''filename'', ''docs/a.txt'')]),
                        (''Content-ID'', ''<docs/a.txt>'', [])]\<rparr>)"
  by (simp add: adjuntar_sg_def cargar_parte_def ctype_of_def mundo_ejemplo_def
      endswith_def suffix_to_prefix and_then_def)



subsection \<open>C3: the envelope recipients and the headers\<close>

lemma enviar_sendmail:
  "Sendmail f r m \<in> set (fst (enviar cfg srv rcpt outer)) \<Longrightarrow>
     f = from_email cfg \<and> r = rcpt \<and> m = outer"
  by (auto simp: enviar_def Let_def split: option.splits)

lemma enviar_reaches_sendmail:
  "connect_exc srv = None \<Longrightarrow> starttls_exc srv = None \<Longrightarrow> login_exc srv = None \<Longrightarrow>
   Sendmail (from_email cfg) rcpt outer \<in> set (fst (enviar cfg srv rcpt outer))"
  by (auto simp: enviar_def Let_def split: option.splits)




subsection \<open>C4: what the loop does with an exception of the send block\<close>

lemma bucle_continues: "paso adj g st i = (st', None) \<Longrightarrow> bucle adj g st (i # resto) = bucle adj g st' resto"
  by simp

lemma enviar_no_exception:
  "snd (enviar cfg srv rcpt outer) = None \<longleftrightarrow>
     connect_exc srv = None \<and> starttls_exc srv = None \<and> login_exc srv = None
     \<and> sendmail_exc srv = None \<and> quit_exc srv = None"
  by (auto simp: enviar_def Let_def split: option.splits)

lemma paso_unfold:
  assumes "sustituir (g_placeholders g) i (g_asunto g, g_cuerpo g) = Inr (elem_asunto, elem_cuerpo)"
    and "i \<noteq> []" and "0 \<le> g_delay g"
  shows "paso adj g st i =
     (imprimir [Sleep (g_delay g)]
        (intentar adj g
           (imprimir [Enviando (elem_actual st + 1) (g_total_elems g) (i ! 0)]
              (st\<lparr>elem_actual := elem_actual st + 1\<rparr>))
           i elem_asunto elem_cuerpo), None)"
  using assms by (simp add: paso_def Let_def getitem_def dormir_def)


lemma sin_adjuntos: "adjuntar mundo_ejemplo [] = Inr None"
  by (rule adjuntar_missing) (simp add: mundo_ejemplo_def marca_inline_def)

lemma componer_ejemplo:
  "componer (adjuntar mundo_ejemplo) cfg_ejemplo [para, [], [], [], nombre] elem_asunto elem_cuerpo =
     Inr (\<lparr>headers = [(''Subject'', elem_asunto), (''To'', Some para),
                      (''From'', Some ''Mailer <mailer@x.com>'')],
           parts = [\<lparr>mime = MIMEText, maintype = ''text'', subtype = ''html'',
                     charset = Some ''UTF-8'', payload = elem_cuerpo, added_headers = []\<rparr>]\<rparr>,
          split_ne para '','')"
  by (simp add: componer_def campo_opcional_def getitem_def py_split_def and_then_def
      cfg_ejemplo_def sin_adjuntos)

lemma sustituir_ejemplo:
  "sustituir [(''||name||'', 4)] [para, [], [], [], nombre]
     (Some ''Hello ||name||'', ''Body ||name|| text'') =
   Inr (Some (''Hello '' @ nombre), ''Body '' @ nombre @ '' text'')"
  by (simp add: getitem_def py_replace_def)



subsection \<open>C2: a record shorter than a mapped column\<close>

text \<open>
  C2 does not hold of the code. When a record has no field at a mapped column (and the
  template has a subject), \<^verbatim>\<open>i[v]\<close> raises in the substitution loop, before the \<^verbatim>\<open>try\<close>:
  the exception escapes the iteration and the loop, nothing is counted or printed for the
  record, and no later record is processed.
\<close>

theorem short_record_escapes_the_try:
  assumes "\<exists>(k, v) \<in> set (g_placeholders g). length i \<le> v" and "g_asunto g = Some asunto"
  shows "paso adj g st i = (st\<lparr>elem_actual := elem_actual st + 1\<rparr>, Some IndexError)
       \<and> bucle adj g st (i # resto) = (st\<lparr>elem_actual := elem_actual st + 1\<rparr>, Some IndexError)"
proof -
  from assms have "sustituir (g_placeholders g) i (g_asunto g, g_cuerpo g) = Inl IndexError"
    by (simp add: sustituir_out_of_range)
  then have "paso adj g st i = (st\<lparr>elem_actual := elem_actual st + 1\<rparr>, Some IndexError)"
    by (simp add: paso_def Let_def)
  then show ?thesis by simp
qed

theorem short_record_escapes_the_try_witness:
  "bucle (adjuntar mundo_ejemplo) g_ejemplo estado_inicial
     [[''a@x.com'', [], [], []], [''b@x.com'', [], [], [], ''Bea'']] =
     (\<lparr>elem_actual = 1, envios_ok = 0, envios_error = 0, salida = []\<rparr>, Some IndexError)
   \<and> main_mailer (opts_ejemplo\<lparr>o_lista := Some ''corta.csv''\<rparr>) mundo_ejemplo =
     (Uncaught IndexError, \<lparr>elem_actual = 1, envios_ok = 0, envios_error = 0, salida = []\<rparr>)
   \<and> exit_status (Uncaught IndexError) = 1"
proof -
  have h: "\<exists>(k, v) \<in> set (g_placeholders g_ejemplo). length [''a@x.com'', [], [], []] \<le> v"
    by (simp add: g_ejemplo_def)
  have a: "g_asunto g_ejemplo = Some ''Hello ||name||''" by (simp add: g_ejemplo_def)
  from short_record_escapes_the_try[OF h a, of "adjuntar mundo_ejemplo" estado_inicial
      "[[''b@x.com'', [], [], [], ''Bea'']]"]
  have "bucle (adjuntar mundo_ejemplo) g_ejemplo estado_inicial
     [[''a@x.com'', [], [], []], [''b@x.com'', [], [], [], ''Bea'']] =
     (\<lparr>elem_actual = 1, envios_ok = 0, envios_error = 0, salida = []\<rparr>, Some IndexError)"
    by (simp add: estado_inicial_def)
  moreover have "main_mailer (opts_ejemplo\<lparr>o_lista := Some ''corta.csv''\<rparr>) mundo_ejemplo =
     (Uncaught IndexError, \<lparr>elem_actual = 1, envios_ok = 0, envios_error = 0, salida = []\<rparr>)"
    by code_simp
  ultimately show ?thesis by simp
qed

subsection \<open>C5: the exit status\<close>

lemma cargar_fatal:
  "o_lista opts = None \<or> o_lista opts = Some [] \<or> o_texto opts = None \<or> o_texto opts = Some []
   \<or> (\<exists>l. o_lista opts = Some l \<and> \<not> isfile w l) \<or> (\<exists>t. o_texto opts = Some t \<and> \<not> isfile w t)
   \<or> json_load w (o_config opts) = None
   \<Longrightarrow> cargar opts w = Inl (Exit 1)"
  by (auto simp: cargar_def split: option.splits)

lemma enviar_no_error_lines: "enviar cfg srv rcpt outer = (evs, r) \<Longrightarrow> filter es_error evs = []"
  by (auto simp: enviar_def Let_def split: option.splits)

lemma intentar_counts:
  "envios_error st = length (filter es_error (salida st)) \<Longrightarrow>
   envios_error (intentar adj g st i a c) = length (filter es_error (salida (intentar adj g st i a c)))"
  by (auto simp: intentar_def imprimir_def dest: enviar_no_error_lines
      split: sum.splits prod.splits option.splits)

lemma paso_counts:
  "envios_error st = length (filter es_error (salida st)) \<Longrightarrow>
   envios_error (fst (paso adj g st i)) = length (filter es_error (salida (fst (paso adj g st i))))"
proof -
  assume inv: "envios_error st = length (filter es_error (salida st))"
  let ?st = "st\<lparr>elem_actual := elem_actual st + 1\<rparr>"
  show ?thesis
  proof (cases "sustituir (g_placeholders g) i (g_asunto g, g_cuerpo g)")
    case (Inl e)
    with inv show ?thesis by (simp add: paso_def Let_def)
  next
    case (Inr p)
    obtain a c where p: "p = (a, c)" by (cases p)
    show ?thesis
    proof (cases "getitem i 0")
      case (Inl e)
      with Inr p inv show ?thesis by (simp add: paso_def Let_def)
    next
      case r: (Inr para)
      have "envios_error (imprimir [Enviando (elem_actual ?st) (g_total_elems g) para] ?st) =
          length (filter es_error (salida (imprimir [Enviando (elem_actual ?st) (g_total_elems g) para] ?st)))"
        using inv by (simp add: imprimir_def)
      from intentar_counts[OF this, of adj g i a c] Inr p r show ?thesis
        by (simp add: paso_def Let_def dormir_def imprimir_def)
    qed
  qed
qed

lemma bucle_counts:
  "envios_error st = length (filter es_error (salida st)) \<Longrightarrow>
   envios_error (fst (bucle adj g st elems)) = length (filter es_error (salida (fst (bucle adj g st elems))))"
proof (induction elems arbitrary: st)
  case Nil then show ?case by simp
next
  case (Cons i elems)
  from paso_counts[OF Cons.prems, of adj g i] Cons.IH[of "fst (paso adj g st i)"]
  show ?case by (auto split: prod.splits option.splits)
qed


lemma cargar_ejemplo:
  "cargar opts_ejemplo mundo_ejemplo =
     Inr (g_ejemplo\<lparr>g_cuerpo := ''Body ||name|| text\<newline>''\<rparr>,
          [[''a@x.com'', [], [], [], ''Ana''], [''b@x.com'', [], [], [], ''Bea''],
           [''c@x.com'', [], [], [], ''Carla'']])"
  by (simp add: cargar_def opts_ejemplo_def mundo_ejemplo_def g_ejemplo_def cfg_ejemplo_def
      py_split_def rstrip_def strip_def lstrip_def isspace_def is_placeholder_def startswith_def
      endswith_def suffix_to_prefix)

lemma cargar_ejemplo_ok:
  "cargar opts_ejemplo (mundo_ejemplo\<lparr>smtp := \<lambda>n. smtp_ok\<rparr>) =
     Inr (g_ejemplo\<lparr>g_cuerpo := ''Body ||name|| text\<newline>'',
                    g_mundo := mundo_ejemplo\<lparr>smtp := \<lambda>n. smtp_ok\<rparr>\<rparr>,
          [[''a@x.com'', [], [], [], ''Ana''], [''b@x.com'', [], [], [], ''Bea''],
           [''c@x.com'', [], [], [], ''Carla'']])"
  by (simp add: cargar_def opts_ejemplo_def mundo_ejemplo_def g_ejemplo_def cfg_ejemplo_def
      py_split_def rstrip_def strip_def lstrip_def isspace_def is_placeholder_def startswith_def
      endswith_def suffix_to_prefix)



subsection \<open>C8: the blocks of the SendGrid engine\<close>

declare bucle_sendgrid.simps [simp del]

lemma filas_bloque_take_drop:
  "filas_bloque elems_lista desde = take bloque_envios (drop desde elems_lista)"
proof (rule nth_equalityI)
  show "length (filas_bloque elems_lista desde) = length (take bloque_envios (drop desde elems_lista))"
    by (auto simp: filas_bloque_def)
next
  fix n assume "n < length (filas_bloque elems_lista desde)"
  then have n: "n < min (desde + bloque_envios) (length elems_lista) - desde"
    by (simp add: filas_bloque_def)
  then have "filas_bloque elems_lista desde ! n = elems_lista ! (desde + n)"
    unfolding filas_bloque_def by (rule nth_map_upt)
  moreover from n have "n < bloque_envios" "desde + n < length elems_lista" by linarith+
  ultimately show "filas_bloque elems_lista desde ! n = take bloque_envios (drop desde elems_lista) ! n"
    by simp
qed

lemma bucle_sendgrid_step:
  assumes "elem_actual st < length elems_lista"
    and "armar_bloque g (filas_bloque elems_lista (elem_actual st)) = Inr mensaje"
  shows "bucle_sendgrid g elems_lista st =
     bucle_sendgrid g elems_lista
       (st\<lparr>elem_actual := elem_actual st + 200,
           salida := salida st @
             [EnviandoBloque (elem_actual st + 1) (min (elem_actual st + 200) (length elems_lista))
                (length elems_lista),
              ImprimirOKBloque, SendgridSend mensaje,
              (case sendgrid_send (g_mundo g) (elem_actual st) mensaje of
                 Inl m \<Rightarrow> ImprimirERRORBloque m
               | Inr respuesta \<Rightarrow> ImprimirRespuesta respuesta)]\<rparr>)"
proof -
  let ?evs = "[EnviandoBloque (elem_actual st + 1) (min (elem_actual st + 200) (length elems_lista))
                (length elems_lista),
              ImprimirOKBloque, SendgridSend mensaje,
              (case sendgrid_send (g_mundo g) (elem_actual st) mensaje of
                 Inl m \<Rightarrow> ImprimirERRORBloque m
               | Inr respuesta \<Rightarrow> ImprimirRespuesta respuesta)]"
  have r: "st\<lparr>salida := salida st @ ?evs, elem_actual := elem_actual st + 200\<rparr> =
      st\<lparr>elem_actual := elem_actual st + 200, salida := salida st @ ?evs\<rparr>"
    by simp
  show ?thesis
    using assms
    by (subst bucle_sendgrid.simps, subst r[symmetric])
       (simp add: Let_def imprimir_def enviar_bloque_def bloque_envios_def)
qed

lemma bucle_sendgrid_abort:
  assumes "elem_actual st < length elems_lista"
    and "armar_bloque g (filas_bloque elems_lista (elem_actual st)) = Inl e"
  shows "snd (bucle_sendgrid g elems_lista st) = Some e"
  using assms by (subst bucle_sendgrid.simps) (simp add: Let_def)

lemma bucle_sendgrid_end:
  "\<not> elem_actual st < length elems_lista \<Longrightarrow> bucle_sendgrid g elems_lista st = (st, None)"
  by (subst bucle_sendgrid.simps) simp

lemma bucle_sendgrid_no_sleep:
  "Sleep d \<in> set (salida (fst (bucle_sendgrid g elems_lista st))) \<Longrightarrow> Sleep d \<in> set (salida st)"
proof (induction g elems_lista st rule: bucle_sendgrid.induct)
  case (1 g elems_lista st)
  show ?case
  proof (cases "elem_actual st < length elems_lista")
    case False
    with "1.prems" show ?thesis by (simp add: bucle_sendgrid_end)
  next
    case True
    show ?thesis
    proof (cases "armar_bloque g (filas_bloque elems_lista (elem_actual st))")
      case (Inl e)
      with True "1.prems" show ?thesis
        by (subst (asm) bucle_sendgrid.simps) (simp add: Let_def imprimir_def)
    next
      case (Inr mensaje)
      let ?st1 = "imprimir [EnviandoBloque (elem_actual st + 1)
                      (min (elem_actual st + bloque_envios) (length elems_lista))
                      (length elems_lista)] st"
      let ?st2 = "(imprimir (enviar_bloque g (elem_actual st) mensaje) ?st1)
                     \<lparr>elem_actual := elem_actual st + bloque_envios\<rparr>"
      from True Inr have eq: "bucle_sendgrid g elems_lista st = bucle_sendgrid g elems_lista ?st2"
        by (subst bucle_sendgrid.simps) (simp add: Let_def)
      from "1.IH"[OF True refl Inr] "1.prems" eq
      have "Sleep d \<in> set (salida ?st2)" by simp
      then show ?thesis
        by (auto simp: imprimir_def enviar_bloque_def split: sum.splits)
    qed
  qed
qed

lemma bucle_sendgrid_completes:
  "\<forall>n. \<exists>m. armar_bloque g (filas_bloque elems_lista n) = Inr m \<Longrightarrow>
   snd (bucle_sendgrid g elems_lista st) = None"
proof (induction g elems_lista st rule: bucle_sendgrid.induct)
  case (1 g elems_lista st)
  show ?case
  proof (cases "elem_actual st < length elems_lista")
    case False
    then show ?thesis by (simp add: bucle_sendgrid_end)
  next
    case True
    from "1.prems" obtain mensaje where
      m: "armar_bloque g (filas_bloque elems_lista (elem_actual st)) = Inr mensaje" by blast
    let ?st1 = "imprimir [EnviandoBloque (elem_actual st + 1)
                      (min (elem_actual st + bloque_envios) (length elems_lista))
                      (length elems_lista)] st"
    let ?st2 = "(imprimir (enviar_bloque g (elem_actual st) mensaje) ?st1)
                     \<lparr>elem_actual := elem_actual st + bloque_envios\<rparr>"
    from True m have eq: "bucle_sendgrid g elems_lista st = bucle_sendgrid g elems_lista ?st2"
      by (subst bucle_sendgrid.simps) (simp add: Let_def)
    from "1.IH"[OF True refl m "1.prems"] eq show ?thesis by simp
  qed
qed

lemma contar_adjuntos_ok:
  "separador_subcampos cfg \<noteq> [] \<Longrightarrow> \<forall>fila \<in> set filas. 4 \<le> length fila \<Longrightarrow>
   \<exists>d. contar_adjuntos cfg filas d0 = Inr d"
  by (induction filas arbitrary: d0) (auto simp: getitem_def py_split_def and_then_def)

lemma sustituciones_ok:
  "\<forall>(k, v) \<in> set P. v < length fila \<Longrightarrow> \<exists>s. sustituciones P fila p = Inr s"
  by (induction P) (auto simp: getitem_def and_then_def)

lemma destinatarios_ok:
  "separador_subcampos cfg \<noteq> [] \<Longrightarrow> n < length fila \<Longrightarrow>
   \<exists>c. destinatarios cfg setter fila n p = Inr c"
  by (simp add: destinatarios_def getitem_def py_split_def and_then_def)

lemma personalizar_ok:
  assumes "separador_subcampos cfg \<noteq> []" "4 \<le> length fila"
    and "\<forall>(k, v) \<in> set P. v < length fila"
  shows "\<exists>c. personalizar cfg P fila p = Inr c"
proof -
  from assms(1,2) obtain cc where cc: "destinatarios cfg SetCc fila 2 p = Inr cc"
    using destinatarios_ok[of cfg 2 fila SetCc p] by auto
  from assms(1,2) obtain bcc where bcc: "destinatarios cfg SetBcc fila 3 p = Inr bcc"
    using destinatarios_ok[of cfg 3 fila SetBcc p] by auto
  from assms(3) obtain s where s: "sustituciones P fila p = Inr s"
    using sustituciones_ok by blast
  from assms(2) have g: "getitem fila 0 = Inr (fila ! 0)" "getitem fila (Suc 0) = Inr (fila ! 1)"
    by (auto simp: getitem_def)
  show ?thesis
    using assms(1) by (simp add: personalizar_def g cc bcc s py_split_def and_then_Inr)
qed

lemma personalizar_todos_ok:
  assumes "separador_subcampos cfg \<noteq> []"
  shows "\<forall>fila \<in> set filas. 4 \<le> length fila \<and> (\<forall>(k, v) \<in> set P. v < length fila) \<Longrightarrow>
    \<exists>m. personalizar_todos cfg P filas p m0 = Inr m"
proof (induction filas arbitrary: p m0)
  case Nil then show ?case by simp
next
  case (Cons fila filas)
  then obtain c where "personalizar cfg P fila p = Inr c"
    using personalizar_ok[OF assms, of fila P p] by auto
  with Cons show ?case by (simp add: and_then_Inr)
qed

lemma armar_bloque_ok:
  assumes "separador_subcampos (g_config g) \<noteq> []"
    and "re_search (g_mundo g) (from_email (g_config g)) \<noteq> None"
    and "\<forall>fila \<in> set filas. 4 \<le> length fila \<and> (\<forall>(k, v) \<in> set (g_placeholders g). v < length fila)"
  shows "\<exists>m. armar_bloque g filas = Inr m"
proof -
  from assms(1,3) obtain d where d: "contar_adjuntos (g_config g) filas [] = Inr d"
    using contar_adjuntos_ok[of "g_config g" filas "[]"] by auto
  from assms(1,3) obtain m where m: "personalizar_todos (g_config g) (g_placeholders g) filas 0 [] = Inr m"
    using personalizar_todos_ok[of "g_config g" filas "g_placeholders g" 0 "[]"] by auto
  from assms(2) show ?thesis
    by (auto simp: armar_bloque_def d m and_then_Inr)
qed

lemma bucle_sendgrid_well_formed:
  assumes "separador_subcampos (g_config g) \<noteq> []"
    and "re_search (g_mundo g) (from_email (g_config g)) \<noteq> None"
    and "\<forall>fila \<in> set elems_lista. 4 \<le> length fila \<and> (\<forall>(k, v) \<in> set (g_placeholders g). v < length fila)"
  shows "snd (bucle_sendgrid g elems_lista st) = None"
proof (rule bucle_sendgrid_completes, rule allI)
  fix n
  have "set (filas_bloque elems_lista n) \<subseteq> set elems_lista"
    unfolding filas_bloque_take_drop by (meson set_take_subset set_drop_subset subset_trans)
  with assms(3) have "\<forall>fila \<in> set (filas_bloque elems_lista n).
      4 \<le> length fila \<and> (\<forall>(k, v) \<in> set (g_placeholders g). v < length fila)"
    by blast
  with assms(1,2) show "\<exists>m. armar_bloque g (filas_bloque elems_lista n) = Inr m"
    by (rule armar_bloque_ok)
qed



end
